theory Spec2Isabelle
  imports Main
begin

section \<open>Data model\<close>

text \<open>
  \<^verbatim>\<open>hydra/core/__init__.py\<close>: the dataclass \<^verbatim>\<open>DefaultElement\<close>. Optional strings
  are \<open>string option\<close>. The fields \<open>skip_load\<close>, \<open>skip_load_reason\<close> and \<open>primary\<close>
  are read and written by \<^verbatim>\<open>defaults_list.py\<close> (\<^verbatim>\<open>set_skip_load\<close>, \<^verbatim>\<open>dd.skip_load\<close>,
  \<^verbatim>\<open>element.primary\<close>) but their declaration is not part of the dataclass source at hand.
\<close>

record DefaultElement =
  config_name :: "string option"
  config_group :: "string option"
  optional :: bool
  package :: "string option"
  package2 :: "string option"
  from_override :: bool
  is_add_only :: bool
  is_delete :: bool
  is_deleted :: bool
  skip_load :: bool
  skip_load_reason :: "string option"
  primary :: bool

text \<open>The constructor call \<^verbatim>\<open>DefaultElement(config_name=n)\<close> with every default.\<close>

definition mk_element :: "string option \<Rightarrow> string option \<Rightarrow> DefaultElement" where
  "mk_element g n =
     \<lparr>config_name = n, config_group = g, optional = False, package = None,
      package2 = None, from_override = False, is_add_only = False, is_delete = False,
      is_deleted = False, skip_load = False, skip_load_reason = None, primary = False\<rparr>"

text \<open>
  Modelled from the spec: \<^verbatim>\<open>set_skip_load\<close>, which the dataclass source at hand does not
  declare. The spec: "mark it skip load, reason=missing optional".
\<close>

definition set_skip_load :: "string \<Rightarrow> DefaultElement \<Rightarrow> DefaultElement" where
  "set_skip_load reason e = e\<lparr>skip_load := True, skip_load_reason := Some reason\<rparr>"

text \<open>
  The dataclass \<^verbatim>\<open>__eq__\<close>: field-wise equality over the fields the dataclass declares.
\<close>

definition elem_eq :: "DefaultElement \<Rightarrow> DefaultElement \<Rightarrow> bool" where
  "elem_eq a b \<longleftrightarrow>
     config_name a = config_name b \<and> config_group a = config_group b \<and>
     optional a = optional b \<and> package a = package b \<and> package2 a = package2 b \<and>
     from_override a = from_override b \<and> is_add_only a = is_add_only b \<and>
     is_delete a = is_delete b \<and> is_deleted a = is_deleted b"

datatype error =
    ConfigCompositionException string
  | MissingConfigException "string option" string
  | AssertionError
  | ValueError

text \<open>Python's \<^verbatim>\<open>f"{x}"\<close> of an optional string: \<^verbatim>\<open>None\<close> prints as the text None.\<close>

definition str_opt :: "string option \<Rightarrow> string" where
  "str_opt s = (case s of None \<Rightarrow> ''None'' | Some t \<Rightarrow> t)"

definition config_path :: "DefaultElement \<Rightarrow> error + string" where
  "config_path e =
     (case config_name e of
        None \<Rightarrow> Inl AssertionError
      | Some n \<Rightarrow>
          (case config_group e of
             Some g \<Rightarrow> Inr (g @ ''/'' @ n)
           | None \<Rightarrow> Inr n))"

definition fully_qualified_group_name :: "DefaultElement \<Rightarrow> string" where
  "fully_qualified_group_name e =
     (case package e of
        Some p \<Rightarrow> str_opt (config_group e) @ ''@'' @ p
      | None \<Rightarrow> str_opt (config_group e))"

definition is_package_rename :: "DefaultElement \<Rightarrow> bool" where
  "is_package_rename e \<longleftrightarrow> package2 e \<noteq> None"

definition get_subject_package :: "DefaultElement \<Rightarrow> string option" where
  "get_subject_package e = (if package2 e = None then package e else package2 e)"

text \<open>\<^verbatim>\<open>DeleteKey\<close>: a frozen dataclass, used as a dictionary key.\<close>

datatype DeleteKey =
  DeleteKey (dk_fqgn: string) (dk_config_name: "string option") (must_delete: bool)

definition repr_DeleteKey :: "DeleteKey \<Rightarrow> string" where
  "repr_DeleteKey k =
     (case dk_config_name k of
        None \<Rightarrow> dk_fqgn k
      | Some n \<Rightarrow> dk_fqgn k @ ''='' @ n)"

text \<open>
  Objects live in a store: a reference is an index into the heap, a Python list of
  elements is a list of references. \<^verbatim>\<open>copy.deepcopy\<close> allocates.
\<close>

type_synonym ref = nat
type_synonym heap = "DefaultElement list"

definition alloc :: "DefaultElement \<Rightarrow> heap \<Rightarrow> ref \<times> heap" where
  "alloc e h = (length h, h @ [e])"

fun alloc_list :: "DefaultElement list \<Rightarrow> heap \<Rightarrow> ref list \<times> heap" where
  "alloc_list [] h = ([], h)"
| "alloc_list (e # es) h =
     (let (r, h1) = alloc e h; (rs, h2) = alloc_list es h1 in (r # rs, h2))"

text \<open>
  An insertion-ordered \<^verbatim>\<open>dict\<close>: assigning an existing key keeps its place, a new key goes
  to the end.
\<close>

fun dict_set :: "'k \<Rightarrow> 'v \<Rightarrow> ('k \<times> 'v) list \<Rightarrow> ('k \<times> 'v) list" where
  "dict_set k v [] = [(k, v)]"
| "dict_set k v ((k', v') # kvs) =
     (if k' = k then (k, v) # kvs else (k', v') # dict_set k v kvs)"

section \<open>Deletion bookkeeping\<close>

text \<open>\<^verbatim>\<open>_post_process_deletes\<close>: the loop over \<^verbatim>\<open>delete_groups.items()\<close>, then the filter.\<close>

fun verify_deletes :: "(DeleteKey \<times> nat) list \<Rightarrow> error + unit" where
  "verify_deletes [] = Inr ()"
| "verify_deletes ((g, c) # kvs) =
     (if c = 0 \<and> must_delete g
      then Inl (ConfigCompositionException
                  (''Could not delete. No match for '' @ [CHR 0x27] @ repr_DeleteKey g
                     @ [CHR 0x27] @ '' in the defaults list.''))
      else verify_deletes kvs)"

definition post_process_deletes ::
  "heap \<Rightarrow> ref list \<Rightarrow> (DeleteKey \<times> nat) list \<Rightarrow> error + ref list" where
  "post_process_deletes h ret delete_groups =
     (case verify_deletes delete_groups of
        Inl e \<Rightarrow> Inl e
      | Inr _ \<Rightarrow> Inr (filter (\<lambda>x. \<not> is_delete (h ! x)) ret))"

text \<open>\<^verbatim>\<open>delete_if_matching\<close>: the loop over the keys, counting matches and flagging \<open>d\<close>.\<close>

definition delete_matches :: "DeleteKey \<Rightarrow> DefaultElement \<Rightarrow> bool" where
  "delete_matches k e \<longleftrightarrow>
     dk_fqgn k = fully_qualified_group_name e \<and>
     (case dk_config_name k of None \<Rightarrow> True | Some n \<Rightarrow> config_name e = Some n)"

definition mark_deleted :: "DefaultElement \<Rightarrow> DefaultElement" where
  "mark_deleted e = set_skip_load ''deleted_from_list'' (e\<lparr>is_deleted := True\<rparr>)"

fun delete_loop ::
  "(DeleteKey \<times> nat) list \<Rightarrow> ref \<Rightarrow> heap \<Rightarrow> bool \<times> (DeleteKey \<times> nat) list \<times> heap" where
  "delete_loop [] d h = (False, [], h)"
| "delete_loop ((k, c) # kvs) d h =
     (if delete_matches k (h ! d)
      then (let (m, kvs', h') = delete_loop kvs d (h[d := mark_deleted (h ! d)])
            in (True, (k, Suc c) # kvs', h'))
      else (let (m, kvs', h') = delete_loop kvs d h
            in (m, (k, c) # kvs', h')))"

definition delete_if_matching ::
  "(DeleteKey \<times> nat) list \<Rightarrow> ref \<Rightarrow> heap \<Rightarrow> bool \<times> (DeleteKey \<times> nat) list \<times> heap" where
  "delete_if_matching delete_groups d h = delete_loop delete_groups d h"

section \<open>Self references\<close>

text \<open>
  \<^verbatim>\<open>_validate_self\<close>. The list it walks is the list the repository has just loaded, so
  its elements are fresh objects that nothing else refers to yet; the loop is modelled on
  their values and returns the updated list. \<open>has_self\<close> is the loop's flag.
\<close>

fun validate_self_loop ::
  "DefaultElement \<Rightarrow> DefaultElement list \<Rightarrow> bool \<Rightarrow> error + (DefaultElement list \<times> bool)" where
  "validate_self_loop element [] has_self = Inr ([], has_self)"
| "validate_self_loop element (d # ds) has_self =
     (if config_name d = Some ''_self_''
      then (if has_self
            then (case config_path element of
                    Inl e \<Rightarrow> Inl e
                  | Inr p \<Rightarrow> Inl (ConfigCompositionException (''Duplicate _self_ defined in '' @ p)))
            else if config_group d \<noteq> None then Inl AssertionError
            else (case validate_self_loop element ds True of
                    Inl e \<Rightarrow> Inl e
                  | Inr (ds', hs) \<Rightarrow>
                      Inr (d\<lparr>config_group := config_group element, package := package element\<rparr> # ds', hs)))
      else (case validate_self_loop element ds has_self of
              Inl e \<Rightarrow> Inl e
            | Inr (ds', hs) \<Rightarrow> Inr (d # ds', hs)))"

definition validate_self :: "DefaultElement \<Rightarrow> DefaultElement list \<Rightarrow> error + DefaultElement list" where
  "validate_self element effective =
     (case validate_self_loop element effective False of
        Inl e \<Rightarrow> Inl e
      | Inr (ds, has_self) \<Rightarrow>
          (if \<not> has_self
           then Inr (element\<lparr>config_name := Some ''_self_'', from_override := False\<rparr> # ds)
           else Inr ds))"

section \<open>Passes over the flattened list\<close>

text \<open>\<^verbatim>\<open>is_matching\<close>.\<close>

definition is_matching :: "DefaultElement \<Rightarrow> DefaultElement \<Rightarrow> bool" where
  "is_matching rename other =
     (if config_group rename \<noteq> config_group other then False
      else if package rename = package other then True
      else False)"

text \<open>
  \<^verbatim>\<open>_process_renames\<close>. \<open>last_rename_index\<close> is the scan from the right;
  \<open>rename_loop\<close> is the inner \<^verbatim>\<open>for d in defaults\<close>, which has no \<^verbatim>\<open>break\<close>; the outer
  \<^verbatim>\<open>while True\<close> is the recursion, each round popping one element.
\<close>

fun last_rename_index :: "heap \<Rightarrow> ref list \<Rightarrow> nat option" where
  "last_rename_index h [] = None"
| "last_rename_index h (d # ds) =
     (case last_rename_index h ds of
        Some i \<Rightarrow> Some (Suc i)
      | None \<Rightarrow> (if is_package_rename (h ! d) then Some 0 else None))"

fun rename_loop :: "ref \<Rightarrow> ref list \<Rightarrow> heap \<Rightarrow> bool \<Rightarrow> heap \<times> bool" where
  "rename_loop rename [] h renamed = (h, renamed)"
| "rename_loop rename (d # ds) h renamed =
     (if is_matching (h ! rename) (h ! d)
      then rename_loop rename ds (h[d := (h ! d)\<lparr>package := get_subject_package (h ! rename)\<rparr>]) True
      else rename_loop rename ds h renamed)"

definition pop :: "nat \<Rightarrow> 'a list \<Rightarrow> 'a list" where
  "pop i xs = take i xs @ drop (Suc i) xs"

definition rename_error :: "DefaultElement \<Rightarrow> error" where
  "rename_error rename =
     ConfigCompositionException
       (''Could not rename package. No match for '' @ [CHR 0x27] @ str_opt (config_group rename)
          @ ''@'' @ str_opt (package rename) @ [CHR 0x27] @ '' in the defaults list'')"

function process_renames :: "ref list \<Rightarrow> heap \<Rightarrow> error + (ref list \<times> heap)" where
  "process_renames defaults h =
     (case last_rename_index h defaults of
        None \<Rightarrow> Inr (defaults, h)
      | Some i \<Rightarrow>
          (let rename = defaults ! i;
               defaults' = pop i defaults;
               (h', renamed) = rename_loop rename defaults' h False
           in if \<not> renamed then Inl (rename_error (h' ! rename))
              else process_renames defaults' h'))"
  by pat_completeness auto
termination
proof (relation "measure (\<lambda>(ds, h). length ds)")
  show "wf (measure (\<lambda>(ds, h). length ds))" by simp
next
  fix defaults :: "ref list" and h :: heap and i rename defaults' p h' renamed
  assume idx: "last_rename_index h defaults = Some i" and d': "defaults' = pop i defaults"
  have bound: "last_rename_index h ds = Some j \<Longrightarrow> j < length ds" for ds j
    by (induction ds arbitrary: j) (auto split: option.splits if_splits)
  from bound [OF idx] d' show "((defaults', h'), (defaults, h)) \<in> measure (\<lambda>(ds, h). length ds)"
    by (simp add: pop_def)
qed

text \<open>\<^verbatim>\<open>_find_match_before\<close> and \<^verbatim>\<open>_verify_no_add_conflicts\<close>; neither writes.\<close>

fun find_match_before :: "DefaultElement list \<Rightarrow> DefaultElement \<Rightarrow> DefaultElement option" where
  "find_match_before [] like = None"
| "find_match_before (d2 # ds) like =
     (if elem_eq d2 like then None
      else if fully_qualified_group_name d2 = fully_qualified_group_name like then Some d2
      else find_match_before ds like)"

definition add_error :: "DefaultElement \<Rightarrow> error" where
  "add_error d =
     (let fqgn = fully_qualified_group_name d in
      ConfigCompositionException
        (''Could not add '' @ [CHR 0x27] @ fqgn @ ''='' @ str_opt (config_name d) @ [CHR 0x27]
           @ ''. '' @ [CHR 0x27] @ fqgn @ [CHR 0x27] @ '' is already in the defaults list.''))"

definition override_error :: "DefaultElement \<Rightarrow> error" where
  "override_error d =
     (let fqgn = fully_qualified_group_name d in
      ConfigCompositionException
        (''Could not override '' @ [CHR 0x27] @ fqgn @ [CHR 0x27]
           @ ''. No match in the defaults list.'' @ [CHR 0x0A]
           @ ''To append to your default list use +'' @ fqgn @ ''='' @ str_opt (config_name d)))"

fun verify_loop :: "DefaultElement list \<Rightarrow> DefaultElement list \<Rightarrow> error + unit" where
  "verify_loop defaults [] = Inr ()"
| "verify_loop defaults (d # ds) =
     (if from_override d \<and> \<not> is_delete d
      then (let match = find_match_before defaults d in
            if is_add_only d \<and> match \<noteq> None then Inl (add_error d)
            else if \<not> is_add_only d \<and> match = None then Inl (override_error d)
            else verify_loop defaults ds)
      else verify_loop defaults ds)"

definition verify_no_add_conflicts :: "DefaultElement list \<Rightarrow> error + unit" where
  "verify_no_add_conflicts defaults = verify_loop defaults (rev defaults)"

text \<open>The deduplication loop that ends \<^verbatim>\<open>_expand_defaults_list_impl\<close>.\<close>

fun dedupe :: "heap \<Rightarrow> string set \<Rightarrow> ref list \<Rightarrow> ref list" where
  "dedupe h seen_groups [] = []"
| "dedupe h seen_groups (d # ds) =
     (if config_group (h ! d) \<noteq> None
      then (let fqgn = fully_qualified_group_name (h ! d) in
            if fqgn \<notin> seen_groups
            then d # dedupe h (if \<not> is_deleted (h ! d) then insert fqgn seen_groups else seen_groups) ds
            else dedupe h seen_groups ds)
      else d # dedupe h seen_groups ds)"

section \<open>The repository and the interpolation library\<close>

text \<open>
  What the code consumes from outside: \<^verbatim>\<open>repo.load_config\<close> (the defaults list of the
  loaded fragment, fresh objects on each call, or \<^verbatim>\<open>None\<close>), \<^verbatim>\<open>repo.get_sources\<close> (each
  source's provider and its \<^verbatim>\<open>repr\<close>), and OmegaConf's test for and resolution of an
  interpolation. The resolution sees the copy of the group-to-choice map and the legacy
  \<^verbatim>\<open>defaults\<close> view built from the original list.
\<close>

record env =
  load_config :: "string \<Rightarrow> bool \<Rightarrow> DefaultElement list option"
  get_sources :: "(string \<times> string) list"
  is_interp :: "string \<Rightarrow> bool"
  resolve_interp ::
    "(string \<rightharpoonup> string option) \<Rightarrow> (string option \<times> string option) list \<Rightarrow> string \<Rightarrow> string
       \<Rightarrow> error + string option"

definition is_interpolation :: "env \<Rightarrow> DefaultElement \<Rightarrow> bool" where
  "is_interpolation env e =
     (case config_name e of Some n \<Rightarrow> is_interp env n | None \<Rightarrow> False)"

fun join :: "string \<Rightarrow> string list \<Rightarrow> string" where
  "join sep [] = []"
| "join sep [x] = x"
| "join sep (x # y # zs) = x @ sep @ join sep (y # zs)"

definition missing_config_error :: "env \<Rightarrow> string option \<Rightarrow> string \<Rightarrow> bool \<Rightarrow> error" where
  "missing_config_error env cfg_name msg with_search_path =
     (let descs = map (\<lambda>(provider, repr). [CHR 0x09] @ repr)
                    (filter (\<lambda>(provider, repr). provider \<noteq> ''schema'') (get_sources env));
          lines = join [CHR 0x0A] descs
      in MissingConfigException cfg_name
           (if with_search_path
            then msg @ [CHR 0x0A] @ ''Search path:'' @ [CHR 0x0A] @ lines
            else msg))"

section \<open>The recursive expansion\<close>

text \<open>
  The state threaded by reference through one top-level call: the objects, the
  group-to-choice map and the delete-group table. A group is \<^verbatim>\<open>in group_to_choice\<close> when
  a name has been assigned to it; the name assigned is an optional string, as
  \<open>config_name\<close> is.
\<close>

record state =
  heap :: heap
  group_to_choice :: "string \<rightharpoonup> string option"
  delete_groups :: "(DeleteKey \<times> nat) list"

text \<open>
  A call returns \<open>None\<close> when the recursion is deeper than the fuel, \<open>Some (Inl e)\<close> when it
  raises, \<open>Some (Inr (list, state))\<close> when it returns.
\<close>

type_synonym 'a exec = "(error + 'a) option"
type_synonym compute = "ref \<Rightarrow> state \<Rightarrow> (ref list \<times> state) exec"

text \<open>
  The loop \<^verbatim>\<open>for dd in reversed(added_sublist)\<close> of \<^verbatim>\<open>_expand_defaults_list_impl\<close>, which
  records the choices; \<open>d\<close> is the entry being processed (after the rebinding of the
  \<^verbatim>\<open>_self_\<close> branch).
\<close>

fun register_choices :: "env \<Rightarrow> ref \<Rightarrow> ref list \<Rightarrow> state \<Rightarrow> state" where
  "register_choices env d [] st = st"
| "register_choices env d (dd # dds) st =
     (let e = heap st ! dd in
      register_choices env d dds
        (if config_group e \<noteq> None \<and> config_name e \<noteq> Some ''_keep_'' \<and> \<not> is_delete e
              \<and> \<not> skip_load e
         then (let fqgn = fully_qualified_group_name e in
               if group_to_choice st fqgn = None \<and> \<not> is_interpolation env (heap st ! d)
               then st\<lparr>group_to_choice := (group_to_choice st)(fqgn \<mapsto> config_name e)\<rparr>
               else st)
         else st))"

text \<open>
  The branches of the main loop for one entry \<open>d\<close>: the entry after rebinding, the added
  sublist, the state and the deferred queue.
\<close>

definition expand_entry ::
  "compute \<Rightarrow> env \<Rightarrow> string option \<Rightarrow> ref \<Rightarrow> state \<Rightarrow> ref list
     \<Rightarrow> (ref \<times> ref list \<times> state \<times> ref list) exec" where
  "expand_entry rec env self_name d st deferred_overrides =
     (let h = heap st; e = h ! d; fqgn = fully_qualified_group_name e in
      if config_name e = Some ''_self_''
      then (case self_name of
              None \<Rightarrow> Some (Inl (ConfigCompositionException
                         ''self_name is not specified and defaults list contains a _self_ item''))
            | Some sn \<Rightarrow>
                (let name = (case group_to_choice st fqgn of Some c \<Rightarrow> c | None \<Rightarrow> Some sn);
                     (d', h') = alloc (e\<lparr>config_name := name\<rparr>) h
                 in Some (Inr (d', [d'], st\<lparr>heap := h'\<rparr>, deferred_overrides))))
      else if is_package_rename e then Some (Inr (d, [d], st, deferred_overrides))
      else if is_delete e
      then (let delete_key = DeleteKey fqgn
                    (if config_name e \<noteq> Some ''_delete_'' then config_name e else None)
                    (from_override e)
            in Some (Inr (d, [d],
                 (if delete_key \<notin> fst ` set (delete_groups st)
                  then st\<lparr>delete_groups := dict_set delete_key 0 (delete_groups st)\<rparr>
                  else st), deferred_overrides)))
      else if from_override e then Some (Inr (d, [d], st, deferred_overrides @ [d]))
      else if is_interpolation env e then Some (Inr (d, [d], st, deferred_overrides @ [d]))
      else (let (deleted, dgs, h') = delete_if_matching (delete_groups st) d h;
                st1 = st\<lparr>heap := h', delete_groups := dgs\<rparr>
            in if deleted then Some (Inr (d, [d], st1, deferred_overrides))
               else (let st2 = (case group_to_choice st1 fqgn of
                                  Some c \<Rightarrow> st1\<lparr>heap := h'[d := (h' ! d)\<lparr>config_name := c\<rparr>]\<rparr>
                                | None \<Rightarrow> st1)
                     in (case rec d st2 of
                           None \<Rightarrow> None
                         | Some (Inl er) \<Rightarrow> Some (Inl er)
                         | Some (Inr (added_sublist, st3)) \<Rightarrow>
                             Some (Inr (d, added_sublist, st3, deferred_overrides))))))"

text \<open>The main loop; its list argument is \<^verbatim>\<open>reversed(defaults)\<close>.\<close>

fun expand_loop ::
  "compute \<Rightarrow> env \<Rightarrow> string option \<Rightarrow> ref list \<Rightarrow> state \<Rightarrow> ref list \<Rightarrow> ref list list
     \<Rightarrow> (state \<times> ref list \<times> ref list list) exec" where
  "expand_loop rec env self_name [] st deferred_overrides ret = Some (Inr (st, deferred_overrides, ret))"
| "expand_loop rec env self_name (d # ds) st deferred_overrides ret =
     (case expand_entry rec env self_name d st deferred_overrides of
        None \<Rightarrow> None
      | Some (Inl er) \<Rightarrow> Some (Inl er)
      | Some (Inr (d', added_sublist, st', deferred')) \<Rightarrow>
          expand_loop rec env self_name ds
            (register_choices env d' (rev added_sublist) st') deferred' (ret @ [added_sublist]))"

text \<open>\<^verbatim>\<open>result.index(d)\<close>: the first position holding an element equal to \<open>d\<close>.\<close>

fun index_of :: "heap \<Rightarrow> ref list \<Rightarrow> ref \<Rightarrow> nat option" where
  "index_of h [] d = None"
| "index_of h (x # xs) d =
     (if x = d \<or> elem_eq (h ! x) (h ! d) then Some 0
      else map_option Suc (index_of h xs d))"

text \<open>The loop \<^verbatim>\<open>for d in deferred_overrides\<close>.\<close>

fun expand_deferred ::
  "compute \<Rightarrow> env \<Rightarrow> (string \<rightharpoonup> string option) \<Rightarrow> (string option \<times> string option) list
     \<Rightarrow> ref list \<Rightarrow> state \<Rightarrow> ref list \<Rightarrow> (ref list \<times> state) exec" where
  "expand_deferred rec env g2c2 legacy [] st result = Some (Inr (result, st))"
| "expand_deferred rec env g2c2 legacy (d # ds) st result =
     (let h = heap st; e = h ! d in
      case (if is_interpolation env e
            then (case config_group e of
                    None \<Rightarrow> Inl AssertionError
                  | Some g \<Rightarrow>
                      (case resolve_interp env g2c2 legacy g (str_opt (config_name e)) of
                         Inl er \<Rightarrow> Inl er
                       | Inr v \<Rightarrow> Inr (st\<lparr>heap := h[d := e\<lparr>config_name := v\<rparr>]\<rparr>)))
            else Inr st) of
        Inl er \<Rightarrow> Some (Inl er)
      | Inr st1 \<Rightarrow>
          (case rec d st1 of
             None \<Rightarrow> None
           | Some (Inl er) \<Rightarrow> Some (Inl er)
           | Some (Inr (item_defaults, st2)) \<Rightarrow>
               (case index_of (heap st2) result d of
                  None \<Rightarrow> Some (Inl ValueError)
                | Some index \<Rightarrow>
                    expand_deferred rec env g2c2 legacy ds st2
                      (take index result @ item_defaults @ drop index result))))"

text \<open>
  \<^verbatim>\<open>_expand_defaults_list_impl\<close>. \<open>original\<close> is the deep copy: objects that nothing else
  refers to and nothing writes, hence their values.
\<close>

definition expand_defaults_list_impl ::
  "compute \<Rightarrow> env \<Rightarrow> string option \<Rightarrow> DefaultElement list \<Rightarrow> ref list \<Rightarrow> state
     \<Rightarrow> (ref list \<times> state) exec" where
  "expand_defaults_list_impl rec env self_name original effective st =
     (case expand_loop rec env self_name (rev effective) st [] [] of
        None \<Rightarrow> None
      | Some (Inl er) \<Rightarrow> Some (Inl er)
      | Some (Inr (st1, deferred_overrides, ret)) \<Rightarrow>
          (case process_renames (concat (rev ret)) (heap st1) of
             Inl er \<Rightarrow> Some (Inl er)
           | Inr (result, h2) \<Rightarrow>
               (case verify_no_add_conflicts (map (\<lambda>r. h2 ! r) result) of
                  Inl er \<Rightarrow> Some (Inl er)
                | Inr _ \<Rightarrow>
                    (case expand_deferred rec env (group_to_choice st1)
                            (map (\<lambda>d. (config_group d, config_name d)) original)
                            deferred_overrides (st1\<lparr>heap := h2\<rparr>) result of
                       None \<Rightarrow> None
                     | Some (Inl er) \<Rightarrow> Some (Inl er)
                     | Some (Inr (result', st3)) \<Rightarrow>
                         Some (Inr (dedupe (heap st3) {} result', st3))))))"

text \<open>
  \<^verbatim>\<open>_compute_element_defaults_list_impl\<close>; the fuel bounds the depth of the recursion
  through the loader.
\<close>

fun compute_element_defaults_list_impl :: "nat \<Rightarrow> env \<Rightarrow> compute" where
  "compute_element_defaults_list_impl 0 env element st = None"
| "compute_element_defaults_list_impl (Suc n) env element st =
     (let (deleted, dgs, h) = delete_if_matching (delete_groups st) element (heap st);
          st1 = st\<lparr>heap := h, delete_groups := dgs\<rparr>
      in if deleted then Some (Inr ([], st1))
         else (case config_path (h ! element) of
                 Inl er \<Rightarrow> Some (Inl er)
               | Inr path \<Rightarrow>
                   (case load_config env path (primary (h ! element)) of
                      None \<Rightarrow>
                        (if optional (h ! element)
                         then Some (Inr ([element],
                                st1\<lparr>heap := h[element := set_skip_load ''missing_optional_config'' (h ! element)]\<rparr>))
                         else Some (Inl (missing_config_error env (Some path)
                                (''Cannot find config : '' @ path @ '', check that it'' @ [CHR 0x27]
                                   @ ''s in your config search path'') True)))
                    | Some loaded \<Rightarrow>
                        (case validate_self (h ! element) loaded of
                           Inl er \<Rightarrow> Some (Inl er)
                         | Inr effective_values \<Rightarrow>
                             (let (effective, h2) = alloc_list effective_values h in
                              expand_defaults_list_impl (compute_element_defaults_list_impl n env) env
                                (config_name (h ! element)) loaded effective (st1\<lparr>heap := h2\<rparr>))))))"

section \<open>Entry points\<close>

definition finish :: "(ref list \<times> state) exec \<Rightarrow> (ref list \<times> heap) exec" where
  "finish r =
     (case r of
        None \<Rightarrow> None
      | Some (Inl er) \<Rightarrow> Some (Inl er)
      | Some (Inr (ret, st)) \<Rightarrow>
          (case post_process_deletes (heap st) ret (delete_groups st) of
             Inl er \<Rightarrow> Some (Inl er)
           | Inr ret' \<Rightarrow> Some (Inr (ret', heap st))))"

definition compute_element_defaults_list ::
  "nat \<Rightarrow> env \<Rightarrow> ref \<Rightarrow> heap \<Rightarrow> (ref list \<times> heap) exec" where
  "compute_element_defaults_list fuel env element h =
     finish (compute_element_defaults_list_impl fuel env element
               \<lparr>heap = h, group_to_choice = Map.empty, delete_groups = []\<rparr>)"

text \<open>The first loop of \<^verbatim>\<open>_expand_defaults_list\<close>; its list argument is \<^verbatim>\<open>reversed(defaults)\<close>.\<close>

fun seed_tables :: "heap \<Rightarrow> ref list \<Rightarrow> state \<Rightarrow> state" where
  "seed_tables h [] st = st"
| "seed_tables h (d # ds) st =
     (let e = h ! d in
      seed_tables h ds
        (if is_delete e
         then st\<lparr>delete_groups :=
                   dict_set (DeleteKey (fully_qualified_group_name e)
                               (if config_name e \<noteq> Some ''_delete_'' then config_name e else None)
                               (from_override e)) 0 (delete_groups st)\<rparr>
         else if config_group e \<noteq> None \<and> group_to_choice st (fully_qualified_group_name e) = None
         then st\<lparr>group_to_choice := (group_to_choice st)(fully_qualified_group_name e \<mapsto> config_name e)\<rparr>
         else st))"

text \<open>\<^verbatim>\<open>_expand_defaults_list\<close> (an identifier cannot start with an underscore).\<close>

definition expand_defaults_list_with_self ::
  "nat \<Rightarrow> env \<Rightarrow> string option \<Rightarrow> ref list \<Rightarrow> heap \<Rightarrow> (ref list \<times> heap) exec" where
  "expand_defaults_list_with_self fuel env self_name defaults h =
     finish (expand_defaults_list_impl (compute_element_defaults_list_impl fuel env) env self_name
               (map (\<lambda>r. h ! r) defaults) defaults
               (seed_tables h (rev defaults) \<lparr>heap = h, group_to_choice = Map.empty, delete_groups = []\<rparr>))"

text \<open>\<^verbatim>\<open>expand_defaults_list\<close>: its parameters are \<^verbatim>\<open>defaults\<close> and \<^verbatim>\<open>repo\<close>.\<close>

definition expand_defaults_list ::
  "nat \<Rightarrow> env \<Rightarrow> ref list \<Rightarrow> heap \<Rightarrow> (ref list \<times> heap) exec" where
  "expand_defaults_list fuel env defaults h = expand_defaults_list_with_self fuel env None defaults h"

section \<open>Notions used in the statements\<close>




text \<open>
  The entries of a returned list that have a group, are not deleted and carry the
  fully-qualified group name \<open>g\<close>.
\<close>

definition survivors :: "heap \<Rightarrow> string \<Rightarrow> ref list \<Rightarrow> ref list" where
  "survivors h g ret =
     filter (\<lambda>r. config_group (h ! r) \<noteq> None \<and> \<not> is_deleted (h ! r)
                  \<and> fully_qualified_group_name (h ! r) = g) ret"













section \<open>Example inputs\<close>

text \<open>
  A repository in the shape of the one the tests read (\<^verbatim>\<open>tests/test_data/recursive_defaults_lists\<close>):
  \<^verbatim>\<open>no_defaults\<close>, \<^verbatim>\<open>trailing_self\<close>, the groups \<^verbatim>\<open>a\<close> and \<^verbatim>\<open>b\<close>, and a fragment \<^verbatim>\<open>x/x1\<close>
  that selects \<^verbatim>\<open>a: a2\<close>. No name is an interpolation.
\<close>

definition example_repo :: "string \<Rightarrow> bool \<Rightarrow> DefaultElement list option" where
  "example_repo path is_primary =
     (if path = ''no_defaults'' then Some []
      else if path = ''trailing_self''
      then Some [mk_element None (Some ''no_defaults''), mk_element None (Some ''_self_'')]
      else if path = ''a/a1'' then Some []
      else if path = ''a/a6'' then Some []
      else if path = ''b/b1'' then Some []
      else if path = ''a/a2'' then Some [mk_element (Some ''b'') (Some ''b1'')]
      else if path = ''x/x1'' then Some [mk_element (Some ''a'') (Some ''a2'')]
      else None)"

definition example_env :: env where
  "example_env =
     \<lparr>load_config = example_repo,
      get_sources = [(''schema'', ''structured://''), (''test'', ''file://tests/test_data'')],
      is_interp = (\<lambda>s. False),
      resolve_interp = (\<lambda>g2c legacy grp n. Inr (Some n))\<rparr>"

text \<open>Two entries of group \<^verbatim>\<open>b\<close> without package, then the rename \<^verbatim>\<open>b@:pkg\<close>.\<close>

definition rename_heap :: heap where
  "rename_heap =
     [mk_element (Some ''b'') (Some ''b1''), mk_element (Some ''b'') (Some ''b2''),
      (mk_element (Some ''b'') (Some ''b1''))\<lparr>package2 := Some ''pkg''\<rparr>]"

text \<open>The override \<^verbatim>\<open>+a=a1\<close>.\<close>

definition dup_add :: DefaultElement where
  "dup_add = (mk_element (Some ''a'') (Some ''a1''))\<lparr>from_override := True, is_add_only := True\<rparr>"

text \<open>
  A deleted entry of group \<^verbatim>\<open>b\<close>, two entries of group \<^verbatim>\<open>b\<close> that are not deleted, and an
  entry without group.
\<close>

definition dedupe_heap :: heap where
  "dedupe_heap =
     [(mk_element (Some ''b'') (Some ''b1''))\<lparr>is_deleted := True\<rparr>,
      mk_element (Some ''b'') (Some ''b3''),
      mk_element (Some ''b'') (Some ''b2''),
      mk_element None (Some ''no_defaults'')]"

text \<open>A repository whose fragment \<^verbatim>\<open>root\<close> declares a \<^verbatim>\<open>_self_\<close> entry with the group \<^verbatim>\<open>g\<close>.\<close>

definition grouped_self_repo :: "string \<Rightarrow> bool \<Rightarrow> DefaultElement list option" where
  "grouped_self_repo path is_primary =
     (if path = ''root'' then Some [mk_element (Some ''g'') (Some ''_self_'')] else None)"

definition grouped_self_env :: env where
  "grouped_self_env =
     \<lparr>load_config = grouped_self_repo, get_sources = [],
      is_interp = (\<lambda>s. False), resolve_interp = (\<lambda>g2c legacy grp n. Inr (Some n))\<rparr>"




section \<open>Missing fragments\<close>

lemma delete_loop_no_match:
  "\<forall>(k, c) \<in> set dgs. \<not> delete_matches k (h ! d) \<Longrightarrow> delete_loop dgs d h = (False, dgs, h)"
  by (induction dgs) auto

text \<open>
  C7. Take an entry that no registered delete matches and whose fragment the repository
  does not find. If the entry is optional, \<^verbatim>\<open>_compute_element_defaults_list_impl\<close> returns
  the entry alone, flagged \<open>skip_load\<close> with the reason \<^verbatim>\<open>missing_optional_config\<close>, and
  changes nothing else; if not, it raises the missing-configuration error that carries the
  searched config path and, in its message, the sources whose provider is not \<^verbatim>\<open>schema\<close>.
\<close>

theorem missing_config_spec:
  assumes nodel: "\<forall>(k, c) \<in> set (delete_groups st). \<not> delete_matches k (heap st ! element)"
    and path: "config_path (heap st ! element) = Inr path"
    and missing: "load_config env path (primary (heap st ! element)) = None"
  shows "compute_element_defaults_list_impl (Suc n) env element st =
           (if optional (heap st ! element)
            then Some (Inr ([element],
                   st\<lparr>heap := (heap st)[element :=
                        (heap st ! element)\<lparr>skip_load := True,
                                             skip_load_reason := Some ''missing_optional_config''\<rparr>]\<rparr>))
            else Some (Inl (MissingConfigException (Some path)
                   (''Cannot find config : '' @ path @ '', check that it'' @ [CHR 0x27]
                      @ ''s in your config search path'' @ [CHR 0x0A] @ ''Search path:'' @ [CHR 0x0A]
                      @ join [CHR 0x0A]
                          (map (\<lambda>src. [CHR 0x09] @ snd src)
                             (filter (\<lambda>src. fst src \<noteq> ''schema'') (get_sources env)))))))"
proof -
  have dl: "delete_if_matching (delete_groups st) element (heap st) = (False, delete_groups st, heap st)"
    unfolding delete_if_matching_def using nodel by (rule delete_loop_no_match)
  have srcs: "map (\<lambda>(provider, repr). [CHR 0x09] @ repr)
                (filter (\<lambda>(provider, repr). provider \<noteq> ''schema'') (get_sources env))
              = map (\<lambda>src. [CHR 0x09] @ snd src)
                  (filter (\<lambda>src. fst src \<noteq> ''schema'') (get_sources env))"
    by (simp add: case_prod_unfold)
  show ?thesis
    by (simp add: dl path missing missing_config_error_def set_skip_load_def case_prod_unfold)
qed

theorem missing_config_spec_witness:
  "compute_element_defaults_list_impl 1 example_env 0
     \<lparr>heap = [(mk_element (Some ''z'') (Some ''zz''))\<lparr>optional := True\<rparr>],
      group_to_choice = Map.empty, delete_groups = []\<rparr>
   = Some (Inr ([0],
       \<lparr>heap = [(mk_element (Some ''z'') (Some ''zz''))
                  \<lparr>optional := True, skip_load := True,
                   skip_load_reason := Some ''missing_optional_config''\<rparr>],
        group_to_choice = Map.empty, delete_groups = []\<rparr>))
   \<and> compute_element_defaults_list_impl 1 example_env 0
     \<lparr>heap = [mk_element (Some ''z'') (Some ''zz'')],
      group_to_choice = Map.empty, delete_groups = []\<rparr>
   = Some (Inl (MissingConfigException (Some ''z/zz'')
       (''Cannot find config : z/zz, check that it'' @ [CHR 0x27] @ ''s in your config search path''
          @ [CHR 0x0A] @ ''Search path:'' @ [CHR 0x0A] @ [CHR 0x09] @ ''file://tests/test_data'')))"
proof -
  let ?opt = "\<lparr>heap = [(mk_element (Some ''z'') (Some ''zz''))\<lparr>optional := True\<rparr>],
      group_to_choice = Map.empty, delete_groups = []\<rparr>"
  let ?req = "\<lparr>heap = [mk_element (Some ''z'') (Some ''zz'')],
      group_to_choice = Map.empty, delete_groups = []\<rparr>"
  have miss: "load_config example_env ''z/zz'' b = None" for b
    by (simp add: example_env_def example_repo_def)
  have p1: "config_path (heap ?opt ! 0) = Inr ''z/zz''"
    by (simp add: config_path_def mk_element_def)
  have p2: "config_path (heap ?req ! 0) = Inr ''z/zz''"
    by (simp add: config_path_def mk_element_def)
  have one: "(1::nat) = Suc 0" by simp
  have "compute_element_defaults_list_impl (Suc 0) example_env 0 ?opt
          = Some (Inr ([0],
       \<lparr>heap = [(mk_element (Some ''z'') (Some ''zz''))
                  \<lparr>optional := True, skip_load := True,
                   skip_load_reason := Some ''missing_optional_config''\<rparr>],
        group_to_choice = Map.empty, delete_groups = []\<rparr>))"
    using missing_config_spec [where st = ?opt and element = 0 and env = example_env
        and path = "''z/zz''" and n = 0] p1 miss
    by (simp add: mk_element_def del: compute_element_defaults_list_impl.simps)
  moreover have "compute_element_defaults_list_impl (Suc 0) example_env 0 ?req
     = Some (Inl (MissingConfigException (Some ''z/zz'')
       (''Cannot find config : z/zz, check that it'' @ [CHR 0x27] @ ''s in your config search path''
          @ [CHR 0x0A] @ ''Search path:'' @ [CHR 0x0A] @ [CHR 0x09] @ ''file://tests/test_data'')))"
    using missing_config_spec [where st = ?req and element = 0 and env = example_env
        and path = "''z/zz''" and n = 0] p2 miss
    by (simp add: mk_element_def example_env_def del: compute_element_defaults_list_impl.simps)
  ultimately show ?thesis unfolding one by (rule conjI)
qed

section \<open>Self references: properties\<close>










text \<open>
  C9. The assertion of \<^verbatim>\<open>_validate_self\<close> can fail: when the fragment \<^verbatim>\<open>root\<close> declares a
  \<^verbatim>\<open>_self_\<close> entry with a group, \<^verbatim>\<open>compute_element_defaults_list\<close> ends in an
  \<^verbatim>\<open>AssertionError\<close>, at every depth of at least one.
\<close>

theorem grouped_self_breaks_assertion:
  "compute_element_defaults_list (Suc n) grouped_self_env 0 [mk_element None (Some ''root'')]
     = Some (Inl AssertionError)"
  by (simp add: compute_element_defaults_list_def grouped_self_env_def grouped_self_repo_def
        mk_element_def delete_if_matching_def config_path_def validate_self_def finish_def)


section \<open>Override conflicts\<close>

text \<open>
  C5. The validation misses a repeated additive override: in \<^verbatim>\<open>[no_defaults, +a=a1, +a=a1]\<close>
  the second \<^verbatim>\<open>+a=a1\<close> has an entry of its group before it, and the validation passes,
  because the scan of \<^verbatim>\<open>_find_match_before\<close> stops at the first entry equal to the
  override, which is the earlier copy; \<^verbatim>\<open>[no_defaults, +a=a1, +a=a2]\<close> raises "already in
  the defaults list". The repeated override goes through \<^verbatim>\<open>expand_defaults_list\<close> as well.
\<close>

theorem verify_no_add_conflicts_duplicate:
  "verify_no_add_conflicts [mk_element None (Some ''no_defaults''), dup_add, dup_add] = Inr ()
   \<and> verify_no_add_conflicts
        [mk_element None (Some ''no_defaults''), dup_add, dup_add\<lparr>config_name := Some ''a2''\<rparr>]
       = Inl (add_error (dup_add\<lparr>config_name := Some ''a2''\<rparr>))
   \<and> (case expand_defaults_list 2 example_env [0, 1, 2]
              [mk_element None (Some ''no_defaults''), dup_add, dup_add] of
        Some (Inr (ret, h')) \<Rightarrow>
          map (\<lambda>r. (config_group (h' ! r), config_name (h' ! r))) ret
            = [(None, Some ''no_defaults''), (Some ''a'', Some ''a1'')]
      | _ \<Rightarrow> False)"
proof -
  have a: "verify_no_add_conflicts [mk_element None (Some ''no_defaults''), dup_add, dup_add] = Inr ()"
    by (simp add: verify_no_add_conflicts_def dup_add_def mk_element_def elem_eq_def
        fully_qualified_group_name_def str_opt_def)
  have b: "verify_no_add_conflicts
        [mk_element None (Some ''no_defaults''), dup_add, dup_add\<lparr>config_name := Some ''a2''\<rparr>]
       = Inl (add_error (dup_add\<lparr>config_name := Some ''a2''\<rparr>))"
    by (simp add: verify_no_add_conflicts_def dup_add_def mk_element_def elem_eq_def
        fully_qualified_group_name_def str_opt_def)
  have c: "case expand_defaults_list 2 example_env [0, 1, 2]
              [mk_element None (Some ''no_defaults''), dup_add, dup_add] of
        Some (Inr (ret, h')) \<Rightarrow>
          map (\<lambda>r. (config_group (h' ! r), config_name (h' ! r))) ret
            = [(None, Some ''no_defaults''), (Some ''a'', Some ''a1'')]
      | _ \<Rightarrow> False"
    by code_simp
  from a b c show ?thesis by simp
qed


section \<open>Package renames\<close>

lemma last_rename_index_None:
  "last_rename_index h ds = None \<longleftrightarrow> (\<forall>d \<in> set ds. \<not> is_package_rename (h ! d))"
  by (induction ds) (auto split: option.splits)

lemma last_rename_index_Some:
  "last_rename_index h ds = Some i \<Longrightarrow>
     i < length ds \<and> is_package_rename (h ! (ds ! i)) \<and>
     (\<forall>j. i < j \<and> j < length ds \<longrightarrow> \<not> is_package_rename (h ! (ds ! j)))"
proof (induction ds arbitrary: i)
  case Nil
  then show ?case by simp
next
  case (Cons d ds)
  show ?case
  proof (cases "last_rename_index h ds")
    case None
    with Cons.prems have i: "i = 0" and rn: "is_package_rename (h ! d)"
      by (auto split: if_splits)
    from None have "\<forall>d \<in> set ds. \<not> is_package_rename (h ! d)"
      by (simp add: last_rename_index_None)
    then have "\<forall>j. 0 < j \<and> j < length (d # ds) \<longrightarrow> \<not> is_package_rename (h ! ((d # ds) ! j))"
      by (auto simp: nth_Cons split: nat.splits)
    with i rn show ?thesis by simp
  next
    case (Some k)
    with Cons.prems have i: "i = Suc k" by simp
    from Cons.IH [OF Some] have k: "k < length ds" "is_package_rename (h ! (ds ! k))"
      and later: "\<forall>j. k < j \<and> j < length ds \<longrightarrow> \<not> is_package_rename (h ! (ds ! j))"
      by auto
    have "\<forall>j. Suc k < j \<and> j < length (d # ds) \<longrightarrow> \<not> is_package_rename (h ! ((d # ds) ! j))"
      using later by (auto simp: nth_Cons split: nat.splits)
    with i k show ?thesis by simp
  qed
qed

lemma rename_loop_char:
  assumes "rename \<notin> set ds" "distinct ds" "\<forall>d \<in> set ds. d < length h"
  shows "rename_loop rename ds h b =
           (map (\<lambda>r. if r \<in> set ds \<and> is_matching (h ! rename) (h ! r)
                      then (h ! r)\<lparr>package := get_subject_package (h ! rename)\<rparr> else h ! r)
                [0..<length h],
            b \<or> (\<exists>d \<in> set ds. is_matching (h ! rename) (h ! d)))"
  using assms
proof (induction ds arbitrary: h b)
  case Nil
  then show ?case by (simp add: map_nth)
next
  case (Cons d ds)
  let ?h1 = "h[d := (h ! d)\<lparr>package := get_subject_package (h ! rename)\<rparr>]"
  from Cons.prems have d: "d < length h" "d \<noteq> rename" "d \<notin> set ds"
    and rest: "rename \<notin> set ds" "distinct ds" "\<forall>x \<in> set ds. x < length h"
    by auto
  show ?case
  proof (cases "is_matching (h ! rename) (h ! d)")
    case True
    have same: "?h1 ! rename = h ! rename" using d by simp
    have other: "\<forall>x \<in> set ds. ?h1 ! x = h ! x"
    proof
      fix x assume "x \<in> set ds"
      with d have "x \<noteq> d" by auto
      then show "?h1 ! x = h ! x" by simp
    qed
    have "rename_loop rename (d # ds) h b = rename_loop rename ds ?h1 True"
      using True by simp
    also have "\<dots> = (map (\<lambda>r. if r \<in> set ds \<and> is_matching (?h1 ! rename) (?h1 ! r)
                      then (?h1 ! r)\<lparr>package := get_subject_package (?h1 ! rename)\<rparr> else ?h1 ! r)
                [0..<length ?h1], True \<or> (\<exists>x \<in> set ds. is_matching (?h1 ! rename) (?h1 ! x)))"
      using rest by (intro Cons.IH) auto
    also have "\<dots> = (map (\<lambda>r. if r \<in> set (d # ds) \<and> is_matching (h ! rename) (h ! r)
                      then (h ! r)\<lparr>package := get_subject_package (h ! rename)\<rparr> else h ! r)
                [0..<length h], b \<or> (\<exists>x \<in> set (d # ds). is_matching (h ! rename) (h ! x)))"
      using True d other by (auto simp: same nth_list_update)
    finally show ?thesis .
  next
    case False
    then show ?thesis
      using Cons.IH [OF rest, of b] d by auto
  qed
qed

lemma process_renames_None:
  "last_rename_index h ds = None \<Longrightarrow> process_renames ds h = Inr (ds, h)"
  by (subst process_renames.simps) simp

lemma process_renames_Some:
  "last_rename_index h ds = Some i \<Longrightarrow>
     process_renames ds h =
       (let (h', renamed) = rename_loop (ds ! i) (pop i ds) h False
        in if \<not> renamed then Inl (rename_error (h' ! (ds ! i)))
           else process_renames (pop i ds) h')"
  by (subst process_renames.simps) (simp add: Let_def)

lemma process_renames_post:
  "process_renames ds h = Inr (ds', h') \<Longrightarrow> \<forall>d \<in> set ds'. \<not> is_package_rename (h' ! d)"
proof (induction ds h rule: process_renames.induct)
  case (1 defaults h)
  show ?case
  proof (cases "last_rename_index h defaults")
    case None
    with "1.prems" show ?thesis
      by (simp add: process_renames_None last_rename_index_None [symmetric])
  next
    case (Some i)
    obtain h1 renamed where loop: "rename_loop (defaults ! i) (pop i defaults) h False = (h1, renamed)"
      by (cases "rename_loop (defaults ! i) (pop i defaults) h False")
    with "1.prems" Some have renamed: renamed
      and rec: "process_renames (pop i defaults) h1 = Inr (ds', h')"
      by (auto simp: process_renames_Some split: if_splits)
    from renamed have nn: "\<not> \<not> renamed" by simp
    from "1.IH" [OF Some refl refl refl loop [symmetric] nn rec] show ?thesis .
  qed
qed

text \<open>
  C3, as the claim states it, fails: the rename is not applied to the first matching entry
  only. With two entries of group \<^verbatim>\<open>b\<close> and no package before the rename \<^verbatim>\<open>b@:pkg\<close>, both
  end in package \<^verbatim>\<open>pkg\<close>.
\<close>

theorem process_renames_all_matches_counterexample:
  "(case process_renames [0, 1, 2] rename_heap of
      Inl e \<Rightarrow> False
    | Inr (ds, h') \<Rightarrow> ds = [0, 1] \<and> package (h' ! 0) = Some ''pkg'' \<and> package (h' ! 1) = Some ''pkg'')"
  by (simp add: rename_heap_def mk_element_def is_package_rename_def pop_def is_matching_def
        get_subject_package_def)

text \<open>
  C3, amended. On a list of distinct allocated objects, \<^verbatim>\<open>_process_renames\<close> does this:
  without a rename directive it returns the list as it is; otherwise it takes the rightmost
  rename directive out of the list and, if no remaining entry has the rename's group and
  source package, raises the composition error, else writes the rename's target package
  into every remaining entry that has them, wherever the entry stands, and goes on with
  the remaining list. A list it returns holds no rename directive.
\<close>

theorem process_renames_spec:
  assumes dist: "distinct ds" and alloc: "\<forall>d \<in> set ds. d < length h"
  shows "(case last_rename_index h ds of
            None \<Rightarrow> (\<forall>d \<in> set ds. \<not> is_package_rename (h ! d)) \<and> process_renames ds h = Inr (ds, h)
          | Some i \<Rightarrow>
              i < length ds \<and> is_package_rename (h ! (ds ! i)) \<and>
              (\<forall>j. i < j \<and> j < length ds \<longrightarrow> \<not> is_package_rename (h ! (ds ! j))) \<and>
              (if \<forall>d \<in> set (pop i ds). \<not> is_matching (h ! (ds ! i)) (h ! d)
               then process_renames ds h = Inl (rename_error (h ! (ds ! i)))
               else process_renames ds h =
                      process_renames (pop i ds)
                        (map (\<lambda>r. if r \<in> set (pop i ds) \<and> is_matching (h ! (ds ! i)) (h ! r)
                                   then (h ! r)\<lparr>package := get_subject_package (h ! (ds ! i))\<rparr>
                                   else h ! r) [0..<length h])))
         \<and> (\<forall>ds' h'. process_renames ds h = Inr (ds', h') \<longrightarrow>
               (\<forall>d \<in> set ds'. \<not> is_package_rename (h' ! d)))"
proof -
  have post: "\<forall>ds' h'. process_renames ds h = Inr (ds', h') \<longrightarrow>
               (\<forall>d \<in> set ds'. \<not> is_package_rename (h' ! d))"
    using process_renames_post by blast
  show ?thesis
  proof (cases "last_rename_index h ds")
    case None
    with post show ?thesis
      by (simp add: process_renames_None last_rename_index_None [symmetric])
  next
    case (Some i)
    note idx = last_rename_index_Some [OF Some]
    from idx have i: "i < length ds" by simp
    have popd: "distinct (pop i ds)" and notin: "ds ! i \<notin> set (pop i ds)"
      and sub: "set (pop i ds) \<subseteq> set ds"
      using dist i
      by (auto simp: pop_def distinct_conv_nth in_set_conv_nth nth_append
               dest: in_set_takeD in_set_dropD)
    have bound: "\<forall>d \<in> set (pop i ds). d < length h"
      using sub alloc by auto
    have ri: "ds ! i < length h" using alloc i by simp
    note loop = rename_loop_char [OF notin popd bound, of False]
    have keep: "\<forall>d \<in> set (pop i ds). \<not> is_matching (h ! (ds ! i)) (h ! d) \<Longrightarrow>
       map (\<lambda>r. if r \<in> set (pop i ds) \<and> is_matching (h ! (ds ! i)) (h ! r)
                 then (h ! r)\<lparr>package := get_subject_package (h ! (ds ! i))\<rparr>
                 else h ! r) [0..<length h] ! (ds ! i) = h ! (ds ! i)"
      using ri notin by simp
    let ?h1 = "map (\<lambda>r. if r \<in> set (pop i ds) \<and> is_matching (h ! (ds ! i)) (h ! r)
                 then (h ! r)\<lparr>package := get_subject_package (h ! (ds ! i))\<rparr>
                 else h ! r) [0..<length h]"
    have eq: "process_renames ds h =
                (if \<forall>d \<in> set (pop i ds). \<not> is_matching (h ! (ds ! i)) (h ! d)
                 then Inl (rename_error (?h1 ! (ds ! i)))
                 else process_renames (pop i ds) ?h1)"
      unfolding process_renames_Some [OF Some] loop by simp
    have step: "if \<forall>d \<in> set (pop i ds). \<not> is_matching (h ! (ds ! i)) (h ! d)
               then process_renames ds h = Inl (rename_error (h ! (ds ! i)))
               else process_renames ds h = process_renames (pop i ds) ?h1"
    proof (cases "\<forall>d \<in> set (pop i ds). \<not> is_matching (h ! (ds ! i)) (h ! d)")
      case True
      have "process_renames ds h = Inl (rename_error (h ! (ds ! i)))"
        using eq [unfolded if_P [OF True]] keep [OF True] by simp
      then show ?thesis unfolding if_P [OF True] .
    next
      case False
      show ?thesis unfolding if_not_P [OF False] using eq [unfolded if_not_P [OF False]] .
    qed
    from idx step post show ?thesis
      unfolding Some option.case by blast
  qed
qed

theorem process_renames_spec_witness:
  "last_rename_index rename_heap [0, 1, 2] = Some 2
   \<and> process_renames [0, 1, 2] rename_heap =
       process_renames [0, 1]
         [(mk_element (Some ''b'') (Some ''b1''))\<lparr>package := Some ''pkg''\<rparr>,
          (mk_element (Some ''b'') (Some ''b2''))\<lparr>package := Some ''pkg''\<rparr>,
          (mk_element (Some ''b'') (Some ''b1''))\<lparr>package2 := Some ''pkg''\<rparr>]"
proof -
  have d: "distinct [0, 1, 2::nat]" by simp
  have a: "\<forall>d \<in> set [0, 1, 2::nat]. d < length rename_heap" by (simp add: rename_heap_def)
  have idx: "last_rename_index rename_heap [0, 1, 2] = Some 2"
    by (simp add: rename_heap_def mk_element_def is_package_rename_def)
  have up: "[0..<3] = [0, 1, 2::nat]" by (simp add: upt_rec)
  show ?thesis
    using process_renames_spec [OF d a]
    unfolding idx option.case
    by (simp add: rename_heap_def mk_element_def pop_def is_matching_def get_subject_package_def up
        del: process_renames.simps)
qed

section \<open>Deduplication\<close>

lemma dedupe_survivors:
  "survivors h g (dedupe h seen ds) = (if g \<in> seen then [] else take 1 (survivors h g ds))"
proof (induction ds arbitrary: seen)
  case Nil
  then show ?case by (simp add: survivors_def)
next
  case (Cons d ds)
  have cons: "survivors h g (x # xs) =
      (if config_group (h ! x) \<noteq> None \<and> \<not> is_deleted (h ! x)
            \<and> fully_qualified_group_name (h ! x) = g
       then x # survivors h g xs else survivors h g xs)" for x xs
    by (simp add: survivors_def)
  show ?case
    by (simp add: cons Cons.IH Let_def)
qed

lemma dedupe_ungrouped:
  "filter (\<lambda>r. config_group (h ! r) = None) (dedupe h seen ds)
     = filter (\<lambda>r. config_group (h ! r) = None) ds"
  by (induction ds arbitrary: seen) (auto simp: Let_def)

lemma expand_impl_deduped:
  "expand_defaults_list_impl rec env sn orig eff st = Some (Inr (ret, st')) \<Longrightarrow>
     \<exists>xs. ret = dedupe (heap st') {} xs"
  by (auto simp: expand_defaults_list_impl_def split: option.splits sum.splits prod.splits)

lemma compute_impl_shape:
  assumes r: "compute_element_defaults_list_impl n env el st = Some (Inr (ret, st'))"
  shows "ret = [] \<or> ret = [el] \<or> (\<exists>xs. ret = dedupe (heap st') {} xs)"
proof (cases n)
  case 0
  with r show ?thesis by simp
next
  case (Suc m)
  obtain deleted dgs h
    where dl: "delete_if_matching (delete_groups st) el (heap st) = (deleted, dgs, h)"
    by (cases "delete_if_matching (delete_groups st) el (heap st)") auto
  show ?thesis
  proof (cases deleted)
    case True
    with r Suc dl show ?thesis by simp
  next
    case live: False
    show ?thesis
    proof (cases "config_path (h ! el)")
      case (Inl er)
      with r Suc dl live show ?thesis by simp
    next
      case (Inr path)
      show ?thesis
      proof (cases "load_config env path (primary (h ! el))")
        case None
        with r Suc dl live Inr show ?thesis by (simp split: if_splits)
      next
        case (Some loaded)
        show ?thesis
        proof (cases "validate_self (h ! el) loaded")
          case (Inl er)
          with r Suc dl live Inr Some show ?thesis by simp
        next
          case valid: (Inr vals)
          obtain eff h2 where al: "alloc_list vals h = (eff, h2)"
            by (cases "alloc_list vals h") auto
          from r Suc dl live Inr Some valid al
          have "\<exists>s. expand_defaults_list_impl (compute_element_defaults_list_impl m env) env
                  (config_name (h ! el)) loaded eff s = Some (Inr (ret, st'))"
            by auto
          then show ?thesis using expand_impl_deduped by blast
        qed
      qed
    qed
  qed
qed

lemma survivors_le_1:
  "ret = [] \<or> ret = [el] \<or> (\<exists>xs. ret = dedupe h {} xs) \<Longrightarrow> length (survivors h g ret) \<le> 1"
  by (auto simp: dedupe_survivors) (auto simp: survivors_def)

lemma length_filter_filter_le:
  "length (filter P (filter Q xs)) \<le> length (filter P xs)"
  by (induction xs) auto

lemma finish_survivors:
  assumes fin: "finish r = Some (Inr (ret', h'))"
    and inv: "\<And>ret st. r = Some (Inr (ret, st)) \<Longrightarrow> length (survivors (heap st) g ret) \<le> 1"
  shows "length (survivors h' g ret') \<le> 1"
proof (cases r)
  case None
  with fin show ?thesis by (simp add: finish_def)
next
  case (Some res)
  show ?thesis
  proof (cases res)
    case (Inl er)
    with fin Some show ?thesis by (simp add: finish_def)
  next
    case (Inr p)
    obtain ret st where p: "p = (ret, st)" by (cases p)
    from fin Some Inr p have ret': "ret' = filter (\<lambda>x. \<not> is_delete (heap st ! x)) ret"
      and h': "h' = heap st"
      by (auto simp: finish_def post_process_deletes_def split: sum.splits)
    have "length (survivors h' g ret') \<le> length (survivors (heap st) g ret)"
      unfolding ret' h' survivors_def by (rule length_filter_filter_le)
    also have "\<dots> \<le> 1" using inv Some Inr p by simp
    finally show ?thesis .
  qed
qed

text \<open>
  C1. Whenever \<^verbatim>\<open>compute_element_defaults_list\<close> or \<^verbatim>\<open>expand_defaults_list\<close> returns, the
  returned list holds, for every fully-qualified group name, at most one entry that has a
  group and is not deleted. In the deduplication loop an entry that has a group, is
  deleted and whose name is not yet seen is kept and leaves the seen names as they are;
  and the entries without a group all pass through, in their order.
\<close>

theorem dedup_invariant:
  "((compute_element_defaults_list fuel env element h = Some (Inr (ret, h')) \<or>
     expand_defaults_list fuel env defaults h = Some (Inr (ret, h')))
      \<longrightarrow> length (survivors h' g ret) \<le> 1)
   \<and> (config_group (h ! d) \<noteq> None \<and> is_deleted (h ! d)
        \<and> fully_qualified_group_name (h ! d) \<notin> seen
      \<longrightarrow> dedupe h seen (d # ds) = d # dedupe h seen ds)
   \<and> filter (\<lambda>r. config_group (h ! r) = None) (dedupe h seen ds)
       = filter (\<lambda>r. config_group (h ! r) = None) ds"
proof -
  have one: "length (survivors (heap st) g ret) \<le> 1"
    if "compute_element_defaults_list_impl fuel env element s0 = Some (Inr (ret, st))" for ret st s0
    using compute_impl_shape [OF that] by (rule survivors_le_1)
  have two: "length (survivors (heap st) g ret) \<le> 1"
    if "expand_defaults_list_impl rec env sn orig eff s0 = Some (Inr (ret, st))"
    for ret st s0 rec sn orig eff
    using expand_impl_deduped [OF that] survivors_le_1 by blast
  have a: "compute_element_defaults_list fuel env element h = Some (Inr (ret, h'))
             \<Longrightarrow> length (survivors h' g ret) \<le> 1"
    unfolding compute_element_defaults_list_def
    by (erule finish_survivors) (rule one)
  have b: "expand_defaults_list fuel env defaults h = Some (Inr (ret, h'))
             \<Longrightarrow> length (survivors h' g ret) \<le> 1"
    unfolding expand_defaults_list_def expand_defaults_list_with_self_def
    by (erule finish_survivors) (rule two)
  have c: "config_group (h ! d) \<noteq> None \<and> is_deleted (h ! d)
        \<and> fully_qualified_group_name (h ! d) \<notin> seen
      \<longrightarrow> dedupe h seen (d # ds) = d # dedupe h seen ds"
    by (simp add: Let_def)
  from a b c dedupe_ungrouped [of h seen ds] show ?thesis by blast
qed

theorem dedup_invariant_witness:
  "(case expand_defaults_list 2 example_env [0, 1]
           [mk_element (Some ''a'') (Some ''a1''), mk_element (Some ''a'') (Some ''a6'')] of
      Some (Inr (ret, h')) \<Rightarrow> ret = [5] \<and> length (survivors h' ''a'' ret) = 1
    | _ \<Rightarrow> False)
   \<and> dedupe dedupe_heap {} [0, 1, 2, 3] = [0, 1, 3]"
proof -
  let ?seed = "[mk_element (Some ''a'') (Some ''a1''), mk_element (Some ''a'') (Some ''a6'')]"
  have run: "case expand_defaults_list 2 example_env [0, 1] ?seed of
      Some (Inr (ret, h')) \<Rightarrow> ret = [5] \<and> 1 \<le> length (survivors h' ''a'' ret)
    | _ \<Rightarrow> False"
    by code_simp
  then obtain ret h' where r: "expand_defaults_list 2 example_env [0, 1] ?seed = Some (Inr (ret, h'))"
    and ret: "ret = [5]" and ge: "1 \<le> length (survivors h' ''a'' ret)"
    by (auto split: option.splits sum.splits)
  from dedup_invariant [where fuel = 2 and env = example_env and defaults = "[0, 1]" and h = ?seed
      and ret = ret and h' = h' and g = "''a''"] r
  have le: "length (survivors h' ''a'' ret) \<le> 1" by blast
  have first: "dedupe dedupe_heap {} (0 # [1, 2, 3]) = 0 # dedupe dedupe_heap {} [1, 2, 3]"
    using dedup_invariant [where h = dedupe_heap and d = 0 and seen = "{}" and ds = "[1, 2, 3]"]
    by (simp add: dedupe_heap_def mk_element_def)
  have rest: "dedupe dedupe_heap {} [1, 2, 3] = [1, 3]"
    by (simp add: dedupe_heap_def mk_element_def fully_qualified_group_name_def str_opt_def)
  from r ret ge le first rest show ?thesis by simp
qed

section \<open>The self name of the public entry point\<close>

text \<open>
  C4. \<^verbatim>\<open>expand_defaults_list\<close> has no parameter for a self name and passes \<^verbatim>\<open>None\<close>: a seed
  list that consists of a \<^verbatim>\<open>_self_\<close> entry raises, whatever the repository and the depth.
\<close>

theorem expand_defaults_list_self_raises:
  "expand_defaults_list fuel env [0] [mk_element None (Some ''_self_'')]
     = Some (Inl (ConfigCompositionException
         ''self_name is not specified and defaults list contains a _self_ item''))"
  by (simp add: expand_defaults_list_def expand_defaults_list_with_self_def
        expand_defaults_list_impl_def expand_entry_def mk_element_def finish_def)

section \<open>Writes to the caller's objects\<close>

text \<open>
  C10. \<^verbatim>\<open>expand_defaults_list\<close> works on the caller's list, whose objects sit at the
  references \<open>0\<close> and \<open>1\<close> here, and writes into them: in the seed \<^verbatim>\<open>[a=a1, a=a6]\<close> the name
  of the first entry becomes the winning choice \<^verbatim>\<open>a6\<close>; in the seed \<^verbatim>\<open>[b=b1, ~b]\<close> the first
  entry is flagged deleted and skip-load; a missing optional seed entry is flagged
  skip-load with the reason \<^verbatim>\<open>missing_optional_config\<close>.
\<close>

theorem expand_defaults_list_writes_input:
  "(case expand_defaults_list 2 example_env [0, 1]
           [mk_element (Some ''a'') (Some ''a1''), mk_element (Some ''a'') (Some ''a6'')] of
      Some (Inr (ret, h')) \<Rightarrow> config_name (h' ! 0) = Some ''a6''
    | _ \<Rightarrow> False)
   \<and> (case expand_defaults_list 2 example_env [0, 1]
           [mk_element (Some ''b'') (Some ''b1''),
            (mk_element (Some ''b'') (Some ''_delete_''))\<lparr>is_delete := True\<rparr>] of
      Some (Inr (ret, h')) \<Rightarrow> ret = [0] \<and> is_deleted (h' ! 0) \<and> skip_load (h' ! 0)
    | _ \<Rightarrow> False)
   \<and> (case expand_defaults_list 2 example_env [0]
           [(mk_element (Some ''z'') (Some ''zz''))\<lparr>optional := True\<rparr>] of
      Some (Inr (ret, h')) \<Rightarrow>
        ret = [0] \<and> skip_load (h' ! 0) \<and> skip_load_reason (h' ! 0) = Some ''missing_optional_config''
    | _ \<Rightarrow> False)"
  by code_simp

section \<open>The choice of a group\<close>
















section \<open>Deletion bookkeeping: properties\<close>

lemma delete_matches_mark [simp]: "delete_matches k (mark_deleted e) = delete_matches k e"
  by (cases "package e"; cases "dk_config_name k")
     (simp_all add: delete_matches_def mark_deleted_def set_skip_load_def fully_qualified_group_name_def)

lemma mark_deleted_idem [simp]: "mark_deleted (mark_deleted e) = mark_deleted e"
  by (simp add: mark_deleted_def set_skip_load_def)































end
